theory Spec2Isabelle
  imports Main "HOL-Library.Product_Lexorder" "HOL-Library.AList" "HOL-Library.Multiset"
begin

section \<open>Python values and strings\<close>

text \<open>
  A Python \<open>str\<close> is a sequence of Unicode code points; it is modelled as a list of
  natural numbers, one per code point.  \<open>ascii\<close> writes an ASCII literal as such a list.
\<close>

type_synonym pystr = "nat list"

definition ascii :: "string \<Rightarrow> pystr" where
  "ascii s = map of_char s"

text \<open>
  The code points that \<open>str.strip()\<close> removes (those with \<open>str.isspace()\<close>).
\<close>

definition is_space :: "nat \<Rightarrow> bool" where
  "is_space c \<longleftrightarrow>
     (9 \<le> c \<and> c \<le> 13) \<or> (28 \<le> c \<and> c \<le> 32) \<or> c = 133 \<or> c = 160 \<or> c = 5760 \<or>
     (8192 \<le> c \<and> c \<le> 8202) \<or> c = 8232 \<or> c = 8233 \<or> c = 8239 \<or> c = 8287 \<or> c = 12288"

definition strip :: "pystr \<Rightarrow> pystr" where
  "strip s = rev (dropWhile is_space (rev (dropWhile is_space s)))"

text \<open>\<open>s.replace(",", ".")\<close>: both strings are one code point long.\<close>

definition replace_comma :: "pystr \<Rightarrow> pystr" where
  "replace_comma s = map (\<lambda>c. if c = 44 then 46 else c) s"

text \<open>
  The values a decoded JSON record can hold.  \<open>None\<close> and strings are modelled as they
  are.  Every other value (a bool, a number, a list, a dict) is modelled by the two
  observations the program makes of it: its truth value and the string \<open>str()\<close> returns
  for it.  None of these other values has a \<open>strip\<close> attribute.
\<close>

datatype pyval = PNone | PStr pystr | POther bool pystr

fun truthy :: "pyval \<Rightarrow> bool" where
  "truthy PNone = False"
| "truthy (PStr s) = (s \<noteq> [])"
| "truthy (POther b s) = b"

fun str :: "pyval \<Rightarrow> pystr" where
  "str PNone = ascii ''None''"
| "str (PStr s) = s"
| "str (POther b s) = s"

text \<open>\<open>a or b\<close>\<close>

definition py_or :: "pyval \<Rightarrow> pyval \<Rightarrow> pyval" where
  "py_or a b = (if truthy a then a else b)"

text \<open>
  The exceptions of the model.  \<open>AttributeError\<close>, \<open>ValueError\<close> and \<open>TypeError\<close>
  derive from \<open>Exception\<close>; \<open>KeyboardInterrupt\<close> derives from \<open>BaseException\<close>
  only, so that an \<open>except Exception\<close> clause does not catch it.
\<close>

datatype exn = AttributeError | ValueError | TypeError | KeyboardInterrupt

fun is_Exception :: "exn \<Rightarrow> bool" where
  "is_Exception AttributeError = True"
| "is_Exception ValueError = True"
| "is_Exception TypeError = True"
| "is_Exception KeyboardInterrupt = False"

text \<open>The call \<open>s.strip()\<close> on a value of a record.\<close>

fun strip_method :: "pyval \<Rightarrow> exn + pystr" where
  "strip_method (PStr s) = Inr (strip s)"
| "strip_method PNone = Inl AttributeError"
| "strip_method (POther b s) = Inl AttributeError"

section \<open>Value normaliser\<close>

definition normalize_value :: "pyval \<Rightarrow> pystr" where
  "normalize_value v =
     (if v = PNone then []
      else let s = strip (str v) in
        if s \<in> set [ascii ''-'', ascii ''N/A'', ascii ''n/a''] then []
        else replace_comma s)"

section \<open>Time utilities\<close>

subsection \<open>Decimal digits and regular expressions\<close>

text \<open>
  In a \<open>str\<close> pattern \<open>\d\<close> matches every Unicode decimal digit (category Nd), and
  \<open>int()\<close> converts them.  The digits come in runs of ten; the list holds the code point
  of the zero of each run (Unicode 14).
\<close>

definition Nd_zeros :: "nat list" where
  "Nd_zeros =
    [0x30, 0x660, 0x6f0, 0x7c0, 0x966, 0x9e6, 0xa66, 0xae6, 0xb66, 0xbe6, 0xc66, 0xce6,
     0xd66, 0xde6, 0xe50, 0xed0, 0xf20, 0x1040, 0x1090, 0x17e0, 0x1810, 0x1946, 0x19d0,
     0x1a80, 0x1a90, 0x1b50, 0x1bb0, 0x1c40, 0x1c50, 0xa620, 0xa8d0, 0xa900, 0xa9d0,
     0xa9f0, 0xaa50, 0xabf0, 0xff10, 0x104a0, 0x10d30, 0x11066, 0x110f0, 0x11136,
     0x111d0, 0x112f0, 0x11450, 0x114d0, 0x11650, 0x116c0, 0x11730, 0x118e0, 0x11950,
     0x11c50, 0x11d50, 0x11da0, 0x16a60, 0x16ac0, 0x16b50, 0x1d7ce, 0x1d7d8, 0x1d7e2,
     0x1d7ec, 0x1d7f6, 0x1e140, 0x1e2f0, 0x1e950, 0x1fbf0]"

definition decimal :: "nat \<Rightarrow> nat option" where
  "decimal c =
     (case filter (\<lambda>z. z \<le> c \<and> c < z + 10) Nd_zeros of
        [] \<Rightarrow> None
      | z # _ \<Rightarrow> Some (c - z))"

definition is_decimal :: "nat \<Rightarrow> bool" where
  "is_decimal c = (decimal c \<noteq> None)"

text \<open>\<open>int(s)\<close> for a matched group: surrounding whitespace is ignored.\<close>

definition int_str :: "pystr \<Rightarrow> nat" where
  "int_str s = foldl (\<lambda>n c. 10 * n + (case decimal c of Some d \<Rightarrow> d | None \<Rightarrow> 0)) 0 (strip s)"

text \<open>
  A backtracking matcher returns every way to match a prefix, as the matched text and
  the rest, in the order the regular expression engine tries them: the head of the list
  is the match \<open>re.match\<close> reports.
\<close>

type_synonym matcher = "pystr \<Rightarrow> (pystr \<times> pystr) list"

definition ch :: "(nat \<Rightarrow> bool) \<Rightarrow> matcher" where
  "ch P s = (case s of [] \<Rightarrow> [] | c # r \<Rightarrow> if P c then [([c], r)] else [])"

definition seq :: "matcher \<Rightarrow> matcher \<Rightarrow> matcher" where
  "seq p q s = concat (map (\<lambda>(a, r). map (\<lambda>(b, r'). (a @ b, r')) (q r)) (p s))"

definition alt :: "matcher \<Rightarrow> matcher \<Rightarrow> matcher" where
  "alt p q s = p s @ q s"

definition rng :: "nat \<Rightarrow> nat \<Rightarrow> nat \<Rightarrow> bool" where
  "rng lo hi c \<longleftrightarrow> lo \<le> c \<and> c \<le> hi"

text \<open>\<open>(?P<H>2[0-3]|[0-1]\d|\d)\<close> and \<open>(?P<M>[0-5]\d|\d)\<close>\<close>

definition re_H :: matcher where
  "re_H = alt (seq (ch (\<lambda>c. c = 50)) (ch (rng 48 51)))
         (alt (seq (ch (rng 48 49)) (ch is_decimal)) (ch is_decimal))"

definition re_M :: matcher where
  "re_M = alt (seq (ch (rng 48 53)) (ch is_decimal)) (ch is_decimal)"

subsection \<open>Times of day\<close>

text \<open>
  A \<open>datetime.time\<close> made by \<open>strptime\<close> with \<open>%H:%M\<close> has its hour and minute only;
  times compare as the tuples of their fields.
\<close>

type_synonym time = "nat \<times> nat"

abbreviation hour :: "time \<Rightarrow> nat" where "hour \<equiv> fst"
abbreviation minute :: "time \<Rightarrow> nat" where "minute \<equiv> snd"

text \<open>
  \<open>datetime.strptime(s, "%H:%M").time()\<close>: \<open>ValueError\<close> when the pattern does not
  match a prefix of \<open>s\<close>, and when the match leaves unconverted data.
\<close>

definition and_then :: "('a \<times> pystr) list \<Rightarrow> ('a \<Rightarrow> pystr \<Rightarrow> ('b \<times> pystr) list) \<Rightarrow> ('b \<times> pystr) list" where
  "and_then ms f = concat (map (\<lambda>(a, r). f a r) ms)"

definition match_HM :: "pystr \<Rightarrow> ((pystr \<times> pystr) \<times> pystr) list" where
  "match_HM s =
     and_then (re_H s) (\<lambda>h r1.
     and_then (ch (\<lambda>c. c = 58) r1) (\<lambda>_ r2.
     and_then (re_M r2) (\<lambda>m r3. [((h, m), r3)])))"

definition strptime_HM :: "pystr \<Rightarrow> exn + time" where
  "strptime_HM s =
     (case match_HM s of
        [] \<Rightarrow> Inl ValueError
      | ((h, m), rest) # _ \<Rightarrow>
          if rest \<noteq> [] then Inl ValueError else Inr (int_str h, int_str m))"

text \<open>The body of the \<open>try\<close> in \<open>parse_hhmm\<close>, and the function with its \<open>except\<close>.\<close>

definition parse_hhmm_try :: "pyval \<Rightarrow> exn + time" where
  "parse_hhmm_try s =
     (case strip_method s of Inl e \<Rightarrow> Inl e | Inr s' \<Rightarrow> strptime_HM s')"

definition parse_hhmm :: "pyval \<Rightarrow> exn + time option" where
  "parse_hhmm s =
     (case parse_hhmm_try s of
        Inr t \<Rightarrow> Inr (Some t)
      | Inl e \<Rightarrow> if is_Exception e then Inr None else Inl e)"







text \<open>
  \<open>parse_hhmm\<close> as its callers use it, on a \<open>str\<close>; \<open>parse_hhmm_PStr\<close> below shows
  that the exception branch is never taken.
\<close>

definition hhmm :: "pystr \<Rightarrow> time option" where
  "hhmm s = (case parse_hhmm (PStr s) of Inr r \<Rightarrow> r | Inl e \<Rightarrow> None)"

definition minutes :: "time \<Rightarrow> int" where
  "minutes t = int (hour t) * 60 + int (minute t)"

text \<open>\<open>datetime.strptime("00:00", "%H:%M").time()\<close>, see \<open>strptime_midnight\<close>.\<close>

definition midnight :: time where
  "midnight = (0, 0)"

subsection \<open>Shift-relative ordering\<close>

definition SHIFT_START :: "pystr \<rightharpoonup> pystr" where
  "SHIFT_START = map_of
     [(ascii ''A'', ascii ''06:00''),
      (ascii ''B'', ascii ''14:00''),
      ([915], ascii ''22:00'')]"

text \<open>
  \<open>sort_donetime_list\<close> reads the module's table \<open>SHIFT_START\<close>; the functions below
  take the table as an argument.  \<open>start_minutes\<close> is \<open>start_m\<close>, and \<open>key\<close> the
  nested function of that name.  A \<open>time\<close> object is always true, so \<open>t or d\<close>
  is \<open>d\<close> only for \<open>None\<close>.
\<close>

definition start_minutes :: "(pystr \<rightharpoonup> pystr) \<Rightarrow> pystr \<Rightarrow> int" where
  "start_minutes tbl shift_name =
     (let start_str = (case tbl shift_name of Some s \<Rightarrow> s | None \<Rightarrow> ascii ''00:00'');
          start_t = (case hhmm start_str of Some t \<Rightarrow> t | None \<Rightarrow> midnight)
      in minutes start_t)"

definition key :: "int \<Rightarrow> pystr \<Rightarrow> int" where
  "key start_m tstr =
     (let t = (case hhmm tstr of Some t \<Rightarrow> t | None \<Rightarrow> midnight);
          m = minutes t
      in (m - start_m) mod (24 * 60))"

text \<open>\<open>sorted\<close> is stable, as \<open>sort_key\<close> is.\<close>

definition sort_donetime_list_with :: "(pystr \<rightharpoonup> pystr) \<Rightarrow> pystr list \<Rightarrow> pystr \<Rightarrow> pystr list" where
  "sort_donetime_list_with tbl tms shift_name =
     (let start_m = start_minutes tbl shift_name in sort_key (key start_m) tms)"


subsection \<open>Calendar dates\<close>

type_synonym date = "nat \<times> nat \<times> nat"

definition is_leap :: "nat \<Rightarrow> bool" where
  "is_leap y \<longleftrightarrow> y mod 4 = 0 \<and> (y mod 100 \<noteq> 0 \<or> y mod 400 = 0)"

definition days_in_month :: "nat \<Rightarrow> nat \<Rightarrow> nat" where
  "days_in_month y m =
     (if m = 2 then (if is_leap y then 29 else 28)
      else if m \<in> set [4, 6, 9, 11] then 30 else 31)"

text \<open>The constructor \<open>date(year, month, day)\<close>.\<close>

definition date_new :: "nat \<Rightarrow> nat \<Rightarrow> nat \<Rightarrow> exn + date" where
  "date_new y m d =
     (if 1 \<le> y \<and> y \<le> 9999 \<and> 1 \<le> m \<and> m \<le> 12 \<and> 1 \<le> d \<and> d \<le> days_in_month y m
      then Inr (y, m, d) else Inl ValueError)"

text \<open>
  \<open>(?P<Y>\d\d\d\d)\<close>, \<open>(?P<m>1[0-2]|0[1-9]|[1-9])\<close> and
  \<open>(?P<d>3[0-1]|[1-2]\d|0[1-9]|[1-9]| [1-9])\<close>
\<close>

definition re_Y :: matcher where
  "re_Y = seq (ch is_decimal) (seq (ch is_decimal) (seq (ch is_decimal) (ch is_decimal)))"

definition re_m :: matcher where
  "re_m = alt (seq (ch (\<lambda>c. c = 49)) (ch (rng 48 50)))
         (alt (seq (ch (\<lambda>c. c = 48)) (ch (rng 49 57))) (ch (rng 49 57)))"

definition re_d :: matcher where
  "re_d = alt (seq (ch (\<lambda>c. c = 51)) (ch (rng 48 49)))
         (alt (seq (ch (rng 49 50)) (ch is_decimal))
         (alt (seq (ch (\<lambda>c. c = 48)) (ch (rng 49 57)))
         (alt (ch (rng 49 57)) (seq (ch (\<lambda>c. c = 32)) (ch (rng 49 57))))))"

definition match_Ymd :: "pystr \<Rightarrow> ((pystr \<times> pystr \<times> pystr) \<times> pystr) list" where
  "match_Ymd s =
     and_then (re_Y s) (\<lambda>y r1.
     and_then (ch (\<lambda>c. c = 45) r1) (\<lambda>_ r2.
     and_then (re_m r2) (\<lambda>m r3.
     and_then (ch (\<lambda>c. c = 45) r3) (\<lambda>_ r4.
     and_then (re_d r4) (\<lambda>d r5. [((y, m, d), r5)])))))"

text \<open>\<open>datetime.strptime(s, "%Y-%m-%d").date()\<close>\<close>

definition strptime_Ymd :: "pystr \<Rightarrow> exn + date" where
  "strptime_Ymd s =
     (case match_Ymd s of
        [] \<Rightarrow> Inl ValueError
      | ((y, m, d), rest) # _ \<Rightarrow>
          if rest \<noteq> [] then Inl ValueError else date_new (int_str y) (int_str m) (int_str d))"

text \<open>\<open>datetime.min.date()\<close> and \<open>datetime.min.time()\<close>\<close>

definition date_min :: date where
  "date_min = (1, 1, 1)"

definition time_min :: time where
  "time_min = (0, 0)"

section \<open>Records\<close>

text \<open>
  A raw record is a dict; the program reads it with \<open>r.get(k)\<close> only, which is
  \<open>None\<close> for a missing key.  \<open>field\<close> is the expression
  \<open>str(r.get(k) or "").strip()\<close>.
\<close>

type_synonym row = "pystr \<rightharpoonup> pyval"

definition get :: "row \<Rightarrow> string \<Rightarrow> pyval" where
  "get r k = (case r (ascii k) of None \<Rightarrow> PNone | Some v \<Rightarrow> v)"

definition field :: "row \<Rightarrow> string \<Rightarrow> pystr" where
  "field r k = strip (str (py_or (get r k) (PStr [])))"

record selector =
  shiftDate :: pystr
  shift :: pystr
  station :: pystr

section \<open>Shift indexer\<close>

record shift_group = selector +
  last_time :: "time option"

type_synonym gkey = "pystr \<times> pystr \<times> pystr"

text \<open>
  The test \<open>t and (last is None or t > last)\<close> of the loop.  A \<open>time\<close> object is
  always true, midnight too (since Python 3.5; the module's f-strings need 3.6), so
  \<open>t and \<dots>\<close> fails for \<open>None\<close> only.
\<close>

fun replaces :: "time option \<Rightarrow> time option \<Rightarrow> bool" where
  "replaces None l = False"
| "replaces (Some t) None = True"
| "replaces (Some t) (Some l) = (t > l)"

text \<open>
  The dict \<open>idx\<close> keeps its keys in insertion order: it is an association list with
  distinct keys, and \<open>AList.update\<close> replaces the value of a present key where it is
  and appends an absent key.  \<open>index_step\<close> is the body of the loop.
\<close>

definition index_step :: "(gkey \<times> shift_group) list \<Rightarrow> row \<Rightarrow> (gkey \<times> shift_group) list" where
  "index_step idx r =
     (let sd = field r ''shiftDate'';
          sh = field r ''shift'';
          st = field r ''station'';
          dt = field r ''donetime''
      in if \<not> (sd \<noteq> [] \<and> sh \<noteq> [] \<and> st \<noteq> [] \<and> dt \<noteq> []) then idx
         else
           let t = hhmm dt; k = (sd, sh, st)
           in (case map_of idx k of
                 None \<Rightarrow>
                   AList.update k \<lparr>shiftDate = sd, shift = sh, station = st, last_time = t\<rparr> idx
               | Some g \<Rightarrow>
                   if replaces t (last_time g)
                   then AList.update k (g\<lparr>last_time := t\<rparr>) idx
                   else idx))"

definition group_sort_key :: "shift_group \<Rightarrow> date \<times> time" where
  "group_sort_key x =
     (let d = (case strptime_Ymd (shiftDate x) of Inr d \<Rightarrow> d | Inl e \<Rightarrow> date_min);
          t = (case last_time x of Some t \<Rightarrow> t | None \<Rightarrow> time_min)
      in (d, t))"

text \<open>
  \<open>sorted(xs, key=f, reverse=True)\<close> keeps elements with equal keys in their original
  order: it reverses, sorts stably, and reverses again.
\<close>

definition sorted_reverse :: "('a \<Rightarrow> 'k::linorder) \<Rightarrow> 'a list \<Rightarrow> 'a list" where
  "sorted_reverse f xs = rev (sort_key f (rev xs))"

definition build_shift_index :: "row list \<Rightarrow> shift_group list" where
  "build_shift_index rows =
     (let idx = foldl index_step [] rows
      in sorted_reverse group_sort_key (map snd idx))"

section \<open>Report builder\<close>

record header =
  operator :: pystr
  product_hdr :: pystr
  productionOrder :: pystr

record matrix_row =
  label :: pystr
  row_values :: "pystr list"

record report = selector +
  columns :: "pystr list"
  matrix :: "matrix_row list"
  header :: header

definition ORDERED_ITEMS :: "pystr list" where
  "ORDERED_ITEMS =
    [[920, 949, 961, 956, 959, 954, 961, 945, 963, 943, 945, 32, 955, 945, 956, 953, 957,
      945, 964, 959, 961, 943, 959, 965, 32, 40, 176, 67, 41],
     [917, 943, 948, 959, 962, 32, 956, 945, 961, 947, 945, 961, 943, 957, 951, 962],
     [920, 949, 961, 956, 959, 954, 961, 945, 963, 943, 945, 32, 956, 945, 961, 947, 945,
      961, 943, 957, 951, 962, 32, 40, 176, 67, 41],
     [923, 945, 956, 940, 954, 953, 32, 956, 945, 961, 947, 945, 961, 943, 957, 951, 962,
      32, 40, 109, 109, 41],
     [923, 945, 956, 940, 954, 953, 32, 114, 101, 99, 117, 112, 101, 114, 111, 32, 40,
      109, 109, 41],
     [916, 953, 940, 954, 949, 957, 959, 32, 956, 945, 967, 945, 953, 961, 953, 974, 957,
      32, 40, 99, 109, 41],
     [928, 940, 967, 959, 962, 32, 101, 120, 116, 114, 117, 100, 101, 114, 32, 40, 49,
      951, 41],
     [928, 940, 967, 959, 962, 32, 101, 120, 116, 114, 117, 100, 101, 114, 32, 40, 50,
      951, 41],
     [928, 959, 963, 959, 963, 964, 972, 32, 956, 945, 961, 947, 945, 961, 943, 957, 951,
      962, 32, 40, 37, 41],
     [928, 959, 963, 959, 963, 964, 972, 32, 945, 957, 945, 954, 973, 954, 955, 969, 963,
      951, 962, 32, 950, 973, 956, 951, 962, 32, 114, 101, 99, 117, 112, 101, 114, 111,
      32, 40, 37, 41]]"

definition ALLOWED_ITEMS :: "pystr set" where
  "ALLOWED_ITEMS = set ORDERED_ITEMS"

definition empty_header :: header where
  "empty_header = \<lparr>operator = [], product_hdr = [], productionOrder = []\<rparr>"

text \<open>
  The records \<open>build_report\<close> keeps, and the two tests that make its loop skip one.
\<close>

definition filtered :: "row list \<Rightarrow> pystr \<Rightarrow> pystr \<Rightarrow> pystr \<Rightarrow> row list" where
  "filtered rows sd sn st =
     filter (\<lambda>r. field r ''shiftDate'' = sd \<and> field r ''shift'' = sn \<and> field r ''station'' = st) rows"

definition skipped :: "pystr list \<Rightarrow> row \<Rightarrow> bool" where
  "skipped items r \<longleftrightarrow> field r ''donetime'' = [] \<or> field r ''itemname'' \<notin> set items"

definition header_of :: "row \<Rightarrow> header" where
  "header_of r =
     \<lparr>operator = field r ''operator'',
      product_hdr = field r ''productproduced'',
      productionOrder = field r ''productionOrder''\<rparr>"

text \<open>
  The body of the loop, on the pair of the dicts \<open>submissions\<close> and \<open>meta\<close>.
  \<open>submissions.setdefault(donetime, {})\<close> followed by the assignment to
  \<open>submissions[donetime][itemname]\<close> appends a new one-entry dict under an absent
  \<open>donetime\<close> and updates the dict of a present one.
\<close>

type_synonym submissions = "(pystr \<times> (pystr \<times> pystr) list) list"
type_synonym meta = "(pystr \<times> header) list"

definition report_step :: "pystr list \<Rightarrow> submissions \<times> meta \<Rightarrow> row \<Rightarrow> submissions \<times> meta" where
  "report_step items sm r =
     (let submissions = fst sm; meta = snd sm;
          donetime = field r ''donetime'';
          itemname = field r ''itemname''
      in if skipped items r then sm
         else
           let v = normalize_value (get r ''itemresult'');
               submissions' =
                 (case map_of submissions donetime of
                    None \<Rightarrow> AList.update donetime [(itemname, v)] submissions
                  | Some d \<Rightarrow> AList.update donetime (AList.update itemname v d) submissions);
               meta' =
                 (if map_of meta donetime = None
                  then AList.update donetime (header_of r) meta
                  else meta)
           in (submissions', meta'))"

text \<open>\<open>submissions.get(t, {}).get(item, "")\<close>\<close>

definition cell :: "submissions \<Rightarrow> pystr \<Rightarrow> pystr \<Rightarrow> pystr" where
  "cell submissions t item =
     (case map_of submissions t of
        None \<Rightarrow> []
      | Some d \<Rightarrow> (case map_of d item of None \<Rightarrow> [] | Some v \<Rightarrow> v))"

text \<open>
  \<open>build_report\<close> reads the module's \<open>ORDERED_ITEMS\<close>, \<open>ALLOWED_ITEMS\<close> and
  \<open>SHIFT_START\<close>; \<open>build_report_with\<close> takes the catalog and the table as arguments.
\<close>

definition build_report_with ::
  "pystr list \<Rightarrow> (pystr \<rightharpoonup> pystr) \<Rightarrow> row list \<Rightarrow> pystr \<Rightarrow> pystr \<Rightarrow> pystr \<Rightarrow> report" where
  "build_report_with items tbl rows sd sn st =
     (let sm = foldl (report_step items) ([], []) (filtered rows sd sn st);
          submissions = fst sm; meta = snd sm;
          cols = sort_donetime_list_with tbl (map fst submissions) sn;
          mat = map (\<lambda>item. \<lparr>label = item, row_values = map (\<lambda>t. cell submissions t item) cols\<rparr>) items;
          hdr = (if cols \<noteq> []
                 then (case map_of meta (last cols) of Some h \<Rightarrow> h | None \<Rightarrow> empty_header)
                 else empty_header)
      in \<lparr>shiftDate = sd, shift = sn, station = st,
          columns = cols, matrix = mat, header = hdr\<rparr>)"

definition build_report :: "row list \<Rightarrow> pystr \<Rightarrow> pystr \<Rightarrow> pystr \<Rightarrow> report" where
  "build_report = build_report_with ORDERED_ITEMS SHIFT_START"

section \<open>Specification vocabulary\<close>

text \<open>
  The minute of the day a string stands for, \<open>00:00\<close> when it does not parse: the
  default the specification gives for the start of a shift and for a \<open>donetime\<close>.
\<close>

definition minutes_or_zero :: "pystr \<Rightarrow> int" where
  "minutes_or_zero s = (case hhmm s of Some t \<Rightarrow> minutes t | None \<Rightarrow> 0)"

text \<open>
  The records of a batch that the loop of \<open>build_report\<close> does not skip, the records
  at one \<open>donetime\<close>, and the values recorded for an item at a \<open>donetime\<close>, in the
  order of the batch.
\<close>

definition surviving :: "pystr list \<Rightarrow> row list \<Rightarrow> row list" where
  "surviving items rs = filter (\<lambda>r. \<not> skipped items r) rs"

definition at_time :: "pystr \<Rightarrow> row list \<Rightarrow> row list" where
  "at_time t rs = filter (\<lambda>r. field r ''donetime'' = t) rs"

definition recorded :: "pystr \<Rightarrow> pystr \<Rightarrow> row list \<Rightarrow> pystr list" where
  "recorded t item rs =
     map (\<lambda>r. normalize_value (get r ''itemresult''))
       (filter (\<lambda>r. field r ''itemname'' = item) (at_time t rs))"

text \<open>The entry of an item in the dict that \<open>submissions\<close> holds for a \<open>donetime\<close>.\<close>

definition inner_lookup :: "submissions \<Rightarrow> pystr \<Rightarrow> pystr \<Rightarrow> pystr option" where
  "inner_lookup sub t item = (case map_of sub t of None \<Rightarrow> None | Some d \<Rightarrow> map_of d item)"

text \<open>
  The records the indexer does not skip: those whose trimmed \<open>shiftDate\<close>, \<open>shift\<close>,
  \<open>station\<close> and \<open>donetime\<close> are all non-empty.  The key of a record and of a group,
  the times parsed from the records of a batch that share a key, and the maximum of a
  list of times, absent for the empty list.
\<close>

definition indexable :: "row \<Rightarrow> bool" where
  "indexable r \<longleftrightarrow> field r ''shiftDate'' \<noteq> [] \<and> field r ''shift'' \<noteq> [] \<and>
     field r ''station'' \<noteq> [] \<and> field r ''donetime'' \<noteq> []"

definition gkey_of :: "row \<Rightarrow> gkey" where
  "gkey_of r = (field r ''shiftDate'', field r ''shift'', field r ''station'')"

definition group_key :: "shift_group \<Rightarrow> gkey" where
  "group_key g = (shiftDate g, shift g, station g)"

definition parsed_times :: "gkey \<Rightarrow> row list \<Rightarrow> time list" where
  "parsed_times k rs =
     List.map_filter (\<lambda>r. hhmm (field r ''donetime'')) (filter (\<lambda>r. gkey_of r = k) rs)"

definition max_time :: "time list \<Rightarrow> time option" where
  "max_time ts = (if ts = [] then None else Some (Max (set ts)))"

definition mk_group :: "gkey \<Rightarrow> time option \<Rightarrow> shift_group" where
  "mk_group k lt = \<lparr>shiftDate = fst k, shift = fst (snd k), station = snd (snd k), last_time = lt\<rparr>"

section \<open>Example batches\<close>

text \<open>
  A record of shift \<open>A\<close> with the given date, station, \<open>donetime\<close>, item name, item
  result and operator; it has no \<open>productproduced\<close> and no \<open>productionOrder\<close>.
\<close>

definition ex_row :: "string \<Rightarrow> string \<Rightarrow> string \<Rightarrow> string \<Rightarrow> string \<Rightarrow> string \<Rightarrow> row" where
  "ex_row sd st dt item res opr = map_of
     [(ascii ''shiftDate'', PStr (ascii sd)),
      (ascii ''shift'', PStr (ascii ''A'')),
      (ascii ''station'', PStr (ascii st)),
      (ascii ''donetime'', PStr (ascii dt)),
      (ascii ''itemname'', PStr (ascii item)),
      (ascii ''itemresult'', PStr (ascii res)),
      (ascii ''operator'', PStr (ascii opr))]"

text \<open>
  A batch for the report builder with the one-item catalog \<open>t\<close>: two submissions at
  \<open>06:05\<close> and two at \<open>07:10\<close> for station \<open>S1\<close>, out of order, one record of an
  item outside the catalog, and one record of another station.
\<close>

definition ex_rows :: "row list" where
  "ex_rows =
     [ex_row ''2024-01-01'' ''S1'' ''07:10'' ''t'' ''-'' ''Dave'',
      ex_row ''2024-01-01'' ''S1'' ''06:05'' ''t'' ''1,5'' ''Alice'',
      ex_row ''2024-01-01'' ''S1'' ''06:05'' ''t'' ''2'' ''Bob'',
      ex_row ''2024-01-01'' ''S1'' ''23:00'' ''x'' ''9'' ''Carol'',
      ex_row ''2024-01-01'' ''S2'' ''08:00'' ''t'' ''7'' ''Erin'',
      ex_row ''2024-01-01'' ''S1'' ''07:10'' ''t'' ''4'' ''Eve'']"

text \<open>
  A batch for the indexer: two records of one group at \<open>08:00\<close> and \<open>09:30\<close>, a
  record of the next day, and a record that has no \<open>station\<close>.
\<close>

definition ex_index_rows :: "row list" where
  "ex_index_rows =
     [ex_row ''2024-01-01'' ''Line1'' ''08:00'' ''t'' ''1'' ''Ann'',
      ex_row ''2024-01-02'' ''Line1'' ''06:00'' ''t'' ''2'' ''Ann'',
      (ex_row ''2024-01-01'' ''Line1'' ''23:59'' ''t'' ''3'' ''Ann'')(ascii ''station'' := None),
      ex_row ''2024-01-01'' ''Line1'' ''09:30'' ''t'' ''4'' ''Ann'']"

section \<open>Trimming\<close>

text \<open>
  \<open>strip\<close> removes a prefix and a suffix of whitespace, and what it returns neither
  starts nor ends with whitespace.
\<close>

lemma strip_decomposition:
  "\<exists>a b. s = a @ strip s @ b \<and> (\<forall>c \<in> set a. is_space c) \<and> (\<forall>c \<in> set b. is_space c)"
proof -
  let ?d = "dropWhile is_space s"
  let ?a = "takeWhile is_space s"
  let ?b = "rev (takeWhile is_space (rev ?d))"
  have "rev (takeWhile is_space (rev ?d) @ dropWhile is_space (rev ?d)) = ?d"
    by (simp only: takeWhile_dropWhile_id rev_rev_ident)
  then have d: "?d = strip s @ ?b" by (simp only: rev_append strip_def)
  have "s = ?a @ ?d" by simp
  with d have "s = ?a @ strip s @ ?b" by simp
  moreover have "\<forall>c \<in> set ?a. is_space c" by (auto dest: set_takeWhileD)
  moreover have "\<forall>c \<in> set ?b. is_space c" by (auto dest: set_takeWhileD)
  ultimately show ?thesis by blast
qed

lemma strip_ends:
  assumes "strip s \<noteq> []"
  shows "\<not> is_space (hd (strip s)) \<and> \<not> is_space (last (strip s))"
proof -
  let ?d = "dropWhile is_space s"
  let ?e = "dropWhile is_space (rev ?d)"
  from assms have e: "?e \<noteq> []" by (simp add: strip_def)
  then have l: "\<not> is_space (hd ?e)" by (rule hd_dropWhile)
  have "last (strip s) = hd ?e" using e by (simp add: strip_def last_rev)
  with l have 1: "\<not> is_space (last (strip s))" by simp
  have "rev (takeWhile is_space (rev ?d) @ ?e) = ?d"
    by (simp only: takeWhile_dropWhile_id rev_rev_ident)
  then have d: "?d = strip s @ rev (takeWhile is_space (rev ?d))"
    by (simp only: rev_append strip_def)
  have "?d \<noteq> []"
  proof
    assume "?d = []"
    with d have "strip s @ rev (takeWhile is_space (rev ?d)) = []" by (simp only:)
    with assms show False by simp
  qed
  then have "\<not> is_space (hd ?d)" by (rule hd_dropWhile)
  moreover from d assms have "hd ?d = hd (strip s)" by (metis hd_append2)
  ultimately show ?thesis using 1 by simp
qed

section \<open>Parsing times\<close>

lemmas eval_defs =
  ascii_def strptime_HM_def match_HM_def and_then_def re_H_def re_M_def alt_def seq_def
  ch_def rng_def is_decimal_def decimal_def Nd_zeros_def int_str_def strip_def is_space_def

lemma strptime_HM_raises: "strptime_HM s = Inl e \<Longrightarrow> e = ValueError"
  by (auto simp: strptime_HM_def split: list.splits prod.splits if_splits)

lemma parse_hhmm_try_raises: "parse_hhmm_try v = Inl e \<Longrightarrow> is_Exception e"
  by (cases v) (auto simp: parse_hhmm_try_def dest: strptime_HM_raises)

lemma parse_hhmm_returns: "\<exists>r. parse_hhmm v = Inr r"
  by (auto simp: parse_hhmm_def split: sum.splits dest: parse_hhmm_try_raises)

lemma parse_hhmm_PStr: "parse_hhmm (PStr s) = Inr (hhmm s)"
  using parse_hhmm_returns[of "PStr s"] by (auto simp: hhmm_def)

lemma hhmm_eq:
  "hhmm s = (case strptime_HM (strip s) of Inr t \<Rightarrow> Some t | Inl e \<Rightarrow> None)"
  by (auto simp: hhmm_def parse_hhmm_def parse_hhmm_try_def
      split: sum.splits dest: strptime_HM_raises)

lemma strptime_midnight: "strptime_HM (ascii ''00:00'') = Inr midnight"
  by (simp add: eval_defs midnight_def)

lemma decimal_ascii: "d < 10 \<Longrightarrow> decimal (48 + d) = Some d"
  by (simp add: decimal_def Nd_zeros_def)

lemma decimal_lt10:
  assumes "decimal c = Some d"
  shows "d < 10"
proof -
  from assms obtain z zs
    where f: "filter (\<lambda>z. z \<le> c \<and> c < z + 10) Nd_zeros = z # zs" and d: "d = c - z"
    by (auto simp: decimal_def split: list.splits)
  from f have "z \<le> c \<and> c < z + 10"
    by (metis (mono_tags, lifting) Cons_eq_filterD)
  with d show ?thesis by arith
qed

lemma not_space_ascii_digit: "d < 10 \<Longrightarrow> \<not> is_space (48 + d)"
  by (simp add: is_space_def)

lemma strip_digits2: "a < 10 \<Longrightarrow> b < 10 \<Longrightarrow> strip [48 + a, 48 + b] = [48 + a, 48 + b]"
  by (simp add: strip_def not_space_ascii_digit)

lemma int_str_digits2: "a < 10 \<Longrightarrow> b < 10 \<Longrightarrow> int_str [48 + a, 48 + b] = 10 * a + b"
  by (simp add: int_str_def strip_digits2 decimal_ascii)

text \<open>
  Two ASCII digits that make an hour below 24, a colon, and two ASCII digits that make
  a minute below 60 parse to that hour and minute.
\<close>

lemma strptime_HM_wellformed:
  assumes "a < 10" "b < 10" "10 * a + b < 24" "c < 6" "d < 10"
  shows "strptime_HM [48 + a, 48 + b, 58, 48 + c, 48 + d] = Inr (10 * a + b, 10 * c + d)"
proof -
  let ?s = "[48 + a, 48 + b, 58, 48 + c, 48 + d]"
  have c10: "c < 10" using assms by simp
  have M: "re_M [48 + c, 48 + d] = ([48 + c, 48 + d], []) # ch is_decimal [48 + c, 48 + d]"
    using assms c10
    by (simp add: re_M_def alt_def seq_def ch_def rng_def is_decimal_def decimal_ascii)
  have "\<exists>xs. match_HM ?s = (([48 + a, 48 + b], [48 + c, 48 + d]), []) # xs"
  proof -
    consider "a = 2" "b < 4" | "a = 0" | "a = 1" using assms by arith
    then show ?thesis
    proof cases
      case 1
      then show ?thesis
        using M by (simp add: match_HM_def and_then_def re_H_def alt_def seq_def ch_def rng_def)
    next
      case 2
      then show ?thesis
        using assms M
        by (simp add: match_HM_def and_then_def re_H_def alt_def seq_def ch_def rng_def
            is_decimal_def decimal_ascii)
    next
      case 3
      then show ?thesis
        using assms M
        by (simp add: match_HM_def and_then_def re_H_def alt_def seq_def ch_def rng_def
            is_decimal_def decimal_ascii)
    qed
  qed
  then show ?thesis
    using assms c10 by (auto simp: strptime_HM_def int_str_digits2)
qed

lemma strip_digits5:
  assumes "a < 10" "d < 10"
  shows "strip [48 + a, b, c, e, 48 + d] = [48 + a, b, c, e, 48 + d]"
  using assms by (simp add: strip_def not_space_ascii_digit)

lemma hhmm_wellformed:
  assumes "a < 10" "b < 10" "10 * a + b < 24" "c < 6" "d < 10"
  shows "hhmm [48 + a, 48 + b, 58, 48 + c, 48 + d] = Some (10 * a + b, 10 * c + d)"
  using assms by (simp add: hhmm_eq strip_digits5 strptime_HM_wellformed)

text \<open>Every time \<open>strptime\<close> returns for \<open>%H:%M\<close> is a time of the day.\<close>

lemma Nd_zeros_ranges:
  "\<forall>z \<in> set Nd_zeros. z = 48 \<or> (1632 \<le> z \<and> z \<le> 4240) \<or> (6112 \<le> z \<and> z \<le> 7248) \<or> 42528 \<le> z"
  by (simp add: Nd_zeros_def)

lemma decimal_run:
  assumes "decimal c = Some d"
  shows "\<exists>z \<in> set Nd_zeros. z \<le> c \<and> c < z + 10 \<and> d = c - z"
proof -
  from assms obtain z zs
    where f: "filter (\<lambda>z. z \<le> c \<and> c < z + 10) Nd_zeros = z # zs" and d: "d = c - z"
    by (auto simp: decimal_def split: list.splits)
  from f have "z \<in> set (filter (\<lambda>z. z \<le> c \<and> c < z + 10) Nd_zeros)"
    by (simp only: list.set_intros)
  then have "z \<in> set Nd_zeros \<and> z \<le> c \<and> c < z + 10"
    by simp
  with d show ?thesis by blast
qed

lemma decimal_not_space:
  assumes "decimal c = Some d"
  shows "\<not> is_space c"
proof -
  from decimal_run[OF assms] obtain z where z: "z \<in> set Nd_zeros" "z \<le> c" "c < z + 10" by blast
  with Nd_zeros_ranges
  have "z = 48 \<or> (1632 \<le> z \<and> z \<le> 4240) \<or> (6112 \<le> z \<and> z \<le> 7248) \<or> 42528 \<le> z" by blast
  with z(2,3) have "(48 \<le> c \<and> c \<le> 57) \<or> (1632 \<le> c \<and> c \<le> 4249) \<or> (6112 \<le> c \<and> c \<le> 7257) \<or> 42528 \<le> c"
    by arith
  then show ?thesis unfolding is_space_def by arith
qed

lemma strip_no_space: "\<forall>c \<in> set s. \<not> is_space c \<Longrightarrow> strip s = s"
proof -
  assume a: "\<forall>c \<in> set s. \<not> is_space c"
  have d: "dropWhile is_space xs = xs" if "\<forall>c \<in> set xs. \<not> is_space c" for xs
    using that by (cases xs) auto
  from a show ?thesis by (simp add: strip_def d)
qed

lemma int_str_1: "decimal a = Some d \<Longrightarrow> int_str [a] = d"
  by (simp add: int_str_def strip_no_space decimal_not_space)

lemma int_str_2: "decimal a = Some d \<Longrightarrow> decimal b = Some e \<Longrightarrow> int_str [a, b] = 10 * d + e"
  by (simp add: int_str_def strip_no_space decimal_not_space)

lemma decimal_ascii': "48 \<le> c \<Longrightarrow> c \<le> 57 \<Longrightarrow> decimal c = Some (c - 48)"
  using decimal_ascii[of "c - 48"] by simp

lemma re_H_bound:
  assumes "(hs, r) \<in> set (re_H s)"
  shows "int_str hs < 24"
proof -
  from assms consider
    b where "hs = [50, b]" "48 \<le> b" "b \<le> 51"
  | a b d where "hs = [a, b]" "48 \<le> a" "a \<le> 49" "decimal b = Some d"
  | a d where "hs = [a]" "decimal a = Some d"
    by (auto simp: re_H_def alt_def seq_def ch_def rng_def is_decimal_def
        split: list.splits if_splits)
  then show ?thesis
  proof cases
    case 1
    then show ?thesis
      using int_str_2[of 50 2 b "b - 48"] decimal_ascii'[of 50] decimal_ascii'[of b] by simp
  next
    case 2
    then show ?thesis
      using int_str_2[of a "a - 48" b d] decimal_ascii'[of a] decimal_lt10[of b d] by simp
  next
    case 3
    then show ?thesis using int_str_1[of a d] decimal_lt10[of a d] by simp
  qed
qed

lemma re_M_bound:
  assumes "(ms, r) \<in> set (re_M s)"
  shows "int_str ms < 60"
proof -
  from assms consider
    a b d where "ms = [a, b]" "48 \<le> a" "a \<le> 53" "decimal b = Some d"
  | a d where "ms = [a]" "decimal a = Some d"
    by (auto simp: re_M_def alt_def seq_def ch_def rng_def is_decimal_def
        split: list.splits if_splits)
  then show ?thesis
  proof cases
    case 1
    then show ?thesis
      using int_str_2[of a "a - 48" b d] decimal_ascii'[of a] decimal_lt10[of b d] by simp
  next
    case 2
    then show ?thesis using int_str_1[of a d] decimal_lt10[of a d] by simp
  qed
qed

lemma strptime_HM_valid:
  assumes "strptime_HM s = Inr t"
  shows "hour t < 24 \<and> minute t < 60"
proof -
  from assms obtain h m rest ms where m: "match_HM s = ((h, m), rest) # ms"
    and t: "t = (int_str h, int_str m)"
    by (auto simp: strptime_HM_def split: list.splits prod.splits if_splits)
  then have "((h, m), rest) \<in> set (match_HM s)" by simp
  then obtain r1 r2 where "(h, r1) \<in> set (re_H s)" "(m, rest) \<in> set (re_M r2)"
    by (auto simp: match_HM_def and_then_def)
  then show ?thesis using t re_H_bound re_M_bound by simp
qed

lemma hhmm_valid: "hhmm s = Some t \<Longrightarrow> hour t < 24 \<and> minute t < 60"
  by (auto simp: hhmm_eq split: sum.splits dest: strptime_HM_valid)


lemma hhmm_empty: "hhmm [] = None"
  by (simp add: hhmm_eq eval_defs)

lemma hhmm_abc: "hhmm (ascii ''abc'') = None"
  by (simp add: hhmm_eq eval_defs)

lemma hhmm_2599: "hhmm (ascii ''25:99'') = None"
  by (simp add: hhmm_eq eval_defs)

lemma hhmm_0000: "hhmm (ascii ''00:00'') = Some (0, 0)"
  using hhmm_wellformed[of 0 0 0 0] by (simp add: ascii_def)


lemma hhmm_0600: "hhmm (ascii ''06:00'') = Some (6, 0)"
  using hhmm_wellformed[of 0 6 0 0] by (simp add: ascii_def)

lemma hhmm_0800: "hhmm (ascii ''08:00'') = Some (8, 0)"
  using hhmm_wellformed[of 0 8 0 0] by (simp add: ascii_def)

lemma hhmm_0930: "hhmm (ascii ''09:30'') = Some (9, 30)"
  using hhmm_wellformed[of 0 9 3 0] by (simp add: ascii_def)



lemma hhmm_2359: "hhmm (ascii ''23:59'') = Some (23, 59)"
  using hhmm_wellformed[of 2 3 5 9] by (simp add: ascii_def)

text \<open>
  C7.  \<open>parse_hhmm\<close> raises on no string: it returns a value, which is absent exactly
  when \<open>strptime\<close> raises \<open>ValueError\<close> on the trimmed string.  It returns absent for
  the empty string, for \<open>abc\<close> and for \<open>25:99\<close>, and a time for every well-formed
  24-hour \<open>HH:MM\<close> string (two ASCII digits below 24, a colon, two ASCII digits below
  60), among them \<open>06:00\<close> and \<open>23:59\<close>.  Every time it returns has an hour
  below 24 and a minute below 60.
\<close>

theorem parse_hhmm_string:
  "(\<exists>r. parse_hhmm (PStr s) = Inr r) \<and>
   (parse_hhmm (PStr s) = Inr None \<longleftrightarrow> strptime_HM (strip s) = Inl ValueError) \<and>
   parse_hhmm (PStr (ascii [])) = Inr None \<and>
   parse_hhmm (PStr (ascii ''abc'')) = Inr None \<and>
   parse_hhmm (PStr (ascii ''25:99'')) = Inr None \<and>
   parse_hhmm (PStr (ascii ''06:00'')) = Inr (Some (6, 0)) \<and>
   parse_hhmm (PStr (ascii ''23:59'')) = Inr (Some (23, 59)) \<and>
   (a < 10 \<and> b < 10 \<and> 10 * a + b < 24 \<and> c < 6 \<and> d < 10 \<longrightarrow>
      parse_hhmm (PStr [48 + a, 48 + b, 58, 48 + c, 48 + d]) = Inr (Some (10 * a + b, 10 * c + d))) \<and>
   (parse_hhmm (PStr s) = Inr (Some t) \<longrightarrow> hour t < 24 \<and> minute t < 60)"
proof -
  have "parse_hhmm (PStr s) = Inr (Some t) \<longrightarrow> hour t < 24 \<and> minute t < 60"
    using hhmm_valid[of s t] by (simp add: parse_hhmm_PStr)
  moreover
  have "parse_hhmm (PStr s) = Inr None \<longleftrightarrow> strptime_HM (strip s) = Inl ValueError"
    by (auto simp: parse_hhmm_PStr hhmm_eq split: sum.splits dest: strptime_HM_raises)
  moreover have "parse_hhmm (PStr (ascii [])) = Inr None"
    using hhmm_empty by (simp add: parse_hhmm_PStr ascii_def)
  moreover have "\<exists>r. parse_hhmm (PStr s) = Inr r"
    by (rule parse_hhmm_returns)
  ultimately show ?thesis
    by (simp add: hhmm_abc hhmm_2599 hhmm_0600 hhmm_2359 hhmm_wellformed
        parse_hhmm_PStr[of "ascii ''abc''"] parse_hhmm_PStr[of "ascii ''25:99''"]
        parse_hhmm_PStr[of "ascii ''06:00''"] parse_hhmm_PStr[of "ascii ''23:59''"]
        parse_hhmm_PStr[of "[48 + a, 48 + b, 58, 48 + c, 48 + d]"])
qed

theorem parse_hhmm_string_witness:
  "(1::nat) < 10 \<and> (7::nat) < 10 \<and> 10 * 1 + 7 < (24::nat) \<and> (4::nat) < 6 \<and> (5::nat) < 10 \<and>
   parse_hhmm (PStr [48 + 1, 48 + 7, 58, 48 + 4, 48 + 5]) = Inr (Some (10 * 1 + 7, 10 * 4 + 5))"
  using parse_hhmm_string[of "[]" 1 7 4 5] by simp








section \<open>Normalising values\<close>

text \<open>
  C6.  \<open>normalize_value\<close> maps \<open>None\<close> to the empty string; any other value is
  converted to a string and trimmed, the results \<open>-\<close>, \<open>N/A\<close> and \<open>n/a\<close> become the
  empty string, and in every other result each comma is replaced by a period.  The
  result never contains a comma, and \<open>" 3,5 "\<close> becomes \<open>"3.5"\<close>.
\<close>

theorem normalize_value_spec:
  "normalize_value v =
     (if v = PNone then []
      else if strip (str v) = ascii ''-'' \<or> strip (str v) = ascii ''N/A'' \<or>
              strip (str v) = ascii ''n/a'' then []
      else map (\<lambda>c. if c = of_char CHR '','' then of_char CHR ''.'' else c) (strip (str v))) \<and>
   of_char CHR '','' \<notin> set (normalize_value v) \<and>
   normalize_value (PStr (ascii '' 3,5 '')) = ascii ''3.5''"
proof -
  have "normalize_value (PStr (ascii '' 3,5 '')) = ascii ''3.5''"
    by (simp add: normalize_value_def replace_comma_def ascii_def strip_def is_space_def)
  then show ?thesis
    by (auto simp: normalize_value_def replace_comma_def Let_def)
qed

theorem normalize_value_spec_witness:
  "normalize_value (PStr (ascii ''N/A'')) = [] \<and> normalize_value PNone = []"
  using normalize_value_spec[of "PStr (ascii ''N/A'')"] normalize_value_spec[of PNone]
  by (simp add: ascii_def strip_def is_space_def)

section \<open>Shift-relative ordering\<close>

lemma key_eq: "key start_m tstr = (minutes_or_zero tstr - start_m) mod 1440"
  by (simp add: key_def minutes_or_zero_def midnight_def minutes_def split: option.splits)

lemma start_minutes_eq:
  "start_minutes tbl sh = (case tbl sh of None \<Rightarrow> 0 | Some s \<Rightarrow> minutes_or_zero s)"
  by (simp add: start_minutes_def minutes_or_zero_def midnight_def minutes_def hhmm_0000
      split: option.splits)




section \<open>The report builder\<close>

lemma map_of_None_keys: "map_of al k = None \<longleftrightarrow> k \<notin> set (map fst al)"
  by (simp add: map_of_eq_None_iff)

lemma report_step_skipped: "skipped items r \<Longrightarrow> report_step items sm r = sm"
  by (simp add: report_step_def)

lemma report_step_keys:
  assumes "\<not> skipped items r"
  shows "map fst (fst (report_step items sm r)) =
     (if field r ''donetime'' \<in> set (map fst (fst sm)) then map fst (fst sm)
      else map fst (fst sm) @ [field r ''donetime''])"
  using assms
  by (auto simp: report_step_def Let_def AList.update_keys map_of_None_keys split: option.splits)

lemma report_step_meta_keys:
  assumes "\<not> skipped items r"
  shows "map fst (snd (report_step items sm r)) =
     (if field r ''donetime'' \<in> set (map fst (snd sm)) then map fst (snd sm)
      else map fst (snd sm) @ [field r ''donetime''])"
  using assms
  by (auto simp: report_step_def Let_def AList.update_keys map_of_None_keys split: option.splits)

lemma report_keys_agree:
  "map fst (snd (foldl (report_step items) ([], []) rs)) =
   map fst (fst (foldl (report_step items) ([], []) rs))"
proof (induction rs rule: rev_induct)
  case Nil
  then show ?case by simp
next
  case (snoc r rs)
  show ?case
  proof (cases "skipped items r")
    case True
    then show ?thesis using snoc by (simp add: report_step_skipped)
  next
    case False
    then show ?thesis using snoc by (simp add: report_step_keys report_step_meta_keys)
  qed
qed

lemma report_keys_set:
  "set (map fst (fst (foldl (report_step items) ([], []) rs))) =
   (\<lambda>r. field r ''donetime'') ` set (surviving items rs)"
proof (induction rs rule: rev_induct)
  case Nil
  then show ?case by (simp add: surviving_def)
next
  case (snoc r rs)
  show ?case
  proof (cases "skipped items r")
    case True
    then show ?thesis using snoc by (simp add: report_step_skipped surviving_def)
  next
    case False
    then show ?thesis using snoc by (auto simp: report_step_keys surviving_def)
  qed
qed

lemma report_keys_distinct:
  "distinct (map fst (fst (foldl (report_step items) ([], []) rs)))"
proof (induction rs rule: rev_induct)
  case Nil
  then show ?case by simp
next
  case (snoc r rs)
  show ?case
  proof (cases "skipped items r")
    case True
    then show ?thesis using snoc by (simp add: report_step_skipped)
  next
    case False
    then show ?thesis using snoc by (simp add: report_step_keys)
  qed
qed



lemma cell_inner: "cell sub t item = (case inner_lookup sub t item of None \<Rightarrow> [] | Some v \<Rightarrow> v)"
  by (simp add: cell_def inner_lookup_def split: option.splits)

lemma report_step_inner:
  assumes "\<not> skipped items r"
  shows "inner_lookup (fst (report_step items sm r)) t item =
     (if field r ''donetime'' = t \<and> field r ''itemname'' = item
      then Some (normalize_value (get r ''itemresult''))
      else inner_lookup (fst sm) t item)"
  using assms
  by (auto simp: report_step_def Let_def inner_lookup_def AList.update_conv' split: option.splits)

lemma recorded_snoc:
  "recorded t item (surviving items (rs @ [r])) =
     recorded t item (surviving items rs) @
     (if \<not> skipped items r \<and> field r ''donetime'' = t \<and> field r ''itemname'' = item
      then [normalize_value (get r ''itemresult'')] else [])"
  by (simp add: recorded_def surviving_def at_time_def)

lemma report_inner:
  "inner_lookup (fst (foldl (report_step items) ([], []) rs)) t item =
     (case recorded t item (surviving items rs) of [] \<Rightarrow> None | v # vs \<Rightarrow> Some (last (v # vs)))"
proof (induction rs rule: rev_induct)
  case Nil
  then show ?case by (simp add: surviving_def at_time_def recorded_def inner_lookup_def)
next
  case (snoc r rs)
  show ?case
  proof (cases "skipped items r")
    case True
    then show ?thesis using snoc by (simp add: report_step_skipped recorded_snoc)
  next
    case False
    then show ?thesis using snoc
      by (simp add: report_step_inner recorded_snoc split: list.splits)
  qed
qed

lemma report_cell:
  "cell (fst (foldl (report_step items) ([], []) rs)) t item =
     (case recorded t item (surviving items rs) of [] \<Rightarrow> [] | v # vs \<Rightarrow> last (v # vs))"
  by (simp add: cell_inner report_inner split: list.splits)

text \<open>The test of the loop with the module's set \<open>ALLOWED_ITEMS\<close>.\<close>

lemma skipped_ALLOWED_ITEMS:
  "skipped ORDERED_ITEMS r \<longleftrightarrow>
     field r ''donetime'' = [] \<or> field r ''itemname'' \<notin> ALLOWED_ITEMS"
  by (simp add: skipped_def ALLOWED_ITEMS_def)

lemma columns_eq:
  "columns (build_report_with items tbl rows sd sn st) =
     sort_donetime_list_with tbl
       (map fst (fst (foldl (report_step items) ([], []) (filtered rows sd sn st)))) sn"
  by (simp add: build_report_with_def Let_def)

lemma set_columns:
  "set (columns (build_report_with items tbl rows sd sn st)) =
     (\<lambda>r. field r ''donetime'') ` set (surviving items (filtered rows sd sn st))"
  using report_keys_set[of items "filtered rows sd sn st"]
  by (simp add: columns_eq sort_donetime_list_with_def)

lemma columns_empty_iff:
  "columns (build_report_with items tbl rows sd sn st) = [] \<longleftrightarrow>
     surviving items (filtered rows sd sn st) = []"
  using set_columns[of items tbl rows sd sn st] by (metis image_is_empty set_empty)

lemma matrix_eq:
  "matrix (build_report_with items tbl rows sd sn st) =
     map (\<lambda>item. \<lparr>label = item, row_values =
        map (\<lambda>t. case recorded t item (surviving items (filtered rows sd sn st)) of
                    [] \<Rightarrow> [] | v # vs \<Rightarrow> last (v # vs))
          (columns (build_report_with items tbl rows sd sn st))\<rparr>) items"
  by (simp add: build_report_with_def Let_def report_cell)

lemma header_eq:
  "header (build_report_with items tbl rows sd sn st) =
     (if columns (build_report_with items tbl rows sd sn st) \<noteq> []
      then (case map_of (snd (foldl (report_step items) ([], []) (filtered rows sd sn st)))
                  (last (columns (build_report_with items tbl rows sd sn st))) of
              Some h \<Rightarrow> h | None \<Rightarrow> empty_header)
      else empty_header)"
  by (simp add: build_report_with_def Let_def)

text \<open>
  C1.  For every batch, selector and catalog the matrix has one row per catalog item,
  in the order of the catalog; every row has as many values as there are columns; the
  value of an item at a column is the value recorded last for that item at the
  column's \<open>donetime\<close> among the records the builder keeps, and the empty string
  where it has none.
\<close>

theorem build_report_matrix:
  "let rep = build_report_with items tbl rows sd sn st;
       kept = surviving items (filtered rows sd sn st)
   in map label (matrix rep) = items \<and>
      (\<forall>row \<in> set (matrix rep). length (row_values row) = length (columns rep)) \<and>
      (\<forall>i < length items. \<forall>j < length (columns rep).
         row_values (matrix rep ! i) ! j =
           (case recorded (columns rep ! j) (items ! i) kept of
              [] \<Rightarrow> [] | v # vs \<Rightarrow> last (v # vs))) \<and>
      map label (matrix (build_report rows sd sn st)) = ORDERED_ITEMS"
  unfolding Let_def
proof (intro conjI allI impI ballI)
  show "map label (matrix (build_report rows sd sn st)) = ORDERED_ITEMS"
    by (simp add: build_report_def matrix_eq comp_def)
next
  show "map label (matrix (build_report_with items tbl rows sd sn st)) = items"
    by (simp add: matrix_eq comp_def)
next
  fix row assume "row \<in> set (matrix (build_report_with items tbl rows sd sn st))"
  then show "length (row_values row) = length (columns (build_report_with items tbl rows sd sn st))"
    by (subst (asm) matrix_eq) auto
next
  fix i j
  assume "i < length items" "j < length (columns (build_report_with items tbl rows sd sn st))"
  then show "row_values (matrix (build_report_with items tbl rows sd sn st) ! i) ! j =
           (case recorded (columns (build_report_with items tbl rows sd sn st) ! j) (items ! i)
                   (surviving items (filtered rows sd sn st)) of
              [] \<Rightarrow> [] | v # vs \<Rightarrow> last (v # vs))"
    by (subst matrix_eq) simp
qed

text \<open>
  C8.  If no record is kept for the selector, as when no record of the batch has that
  date, shift and station, then \<open>build_report\<close> returns no columns, its rows in
  the order of the catalog with no values, and the empty header.
\<close>

theorem build_report_no_data:
  "(surviving items (filtered rows sd sn st) = [] \<longrightarrow>
      columns (build_report_with items tbl rows sd sn st) = [] \<and>
      map label (matrix (build_report_with items tbl rows sd sn st)) = items \<and>
      (\<forall>row \<in> set (matrix (build_report_with items tbl rows sd sn st)). row_values row = []) \<and>
      header (build_report_with items tbl rows sd sn st) = empty_header) \<and>
   (filtered rows sd sn st = [] \<longrightarrow> surviving items (filtered rows sd sn st) = []) \<and>
   ((\<forall>r \<in> set rows. (field r ''shiftDate'', field r ''shift'', field r ''station'') \<noteq> (sd, sn, st))
      \<longrightarrow> filtered rows sd sn st = [])"
proof -
  have "columns (build_report_with items tbl rows sd sn st) = [] \<and>
      map label (matrix (build_report_with items tbl rows sd sn st)) = items \<and>
      (\<forall>row \<in> set (matrix (build_report_with items tbl rows sd sn st)). row_values row = []) \<and>
      header (build_report_with items tbl rows sd sn st) = empty_header"
    if "surviving items (filtered rows sd sn st) = []"
  proof -
    have c: "columns (build_report_with items tbl rows sd sn st) = []"
      using that by (simp add: columns_empty_iff)
    have "\<forall>row \<in> set (matrix (build_report_with items tbl rows sd sn st)). row_values row = []"
      by (subst matrix_eq) (auto simp: c)
    moreover have "map label (matrix (build_report_with items tbl rows sd sn st)) = items"
      by (simp add: matrix_eq comp_def)
    ultimately show ?thesis using c by (simp add: header_eq)
  qed
  moreover have "filtered rows sd sn st = [] \<longrightarrow> surviving items (filtered rows sd sn st) = []"
    by (simp add: surviving_def)
  moreover have "(\<forall>r \<in> set rows. (field r ''shiftDate'', field r ''shift'', field r ''station'') \<noteq> (sd, sn, st))
      \<longrightarrow> filtered rows sd sn st = []"
    by (auto simp: filtered_def filter_empty_conv)
  ultimately show ?thesis by blast
qed

text \<open>
  C9.  After the loop of \<open>build_report\<close> the dicts \<open>meta\<close> and \<open>submissions\<close>
  have the same keys, these are the columns, every column has a header in \<open>meta\<close>,
  and if there is a column the returned header is the entry found for the last one,
  not the fallback.
\<close>

theorem build_report_meta_present:
  "let sm = foldl (report_step items) ([], []) (filtered rows sd sn st);
       rep = build_report_with items tbl rows sd sn st
   in map fst (snd sm) = map fst (fst sm) \<and>
      set (columns rep) = set (map fst (fst sm)) \<and>
      (\<forall>t \<in> set (columns rep). \<exists>h. map_of (snd sm) t = Some h) \<and>
      (columns rep \<noteq> [] \<longrightarrow>
         (\<exists>h. map_of (snd sm) (last (columns rep)) = Some h \<and> header rep = h))"
proof -
  let ?sm = "foldl (report_step items) ([], []) (filtered rows sd sn st)"
  let ?rep = "build_report_with items tbl rows sd sn st"
  have k: "map fst (snd ?sm) = map fst (fst ?sm)" by (rule report_keys_agree)
  have s: "set (columns ?rep) = set (map fst (fst ?sm))"
    by (simp add: columns_eq sort_donetime_list_with_def)
  have p: "\<exists>h. map_of (snd ?sm) t = Some h" if "t \<in> set (columns ?rep)" for t
  proof -
    from that s k have "t \<in> set (map fst (snd ?sm))" by simp
    then have "map_of (snd ?sm) t \<noteq> None" by (simp add: map_of_eq_None_iff)
    then show ?thesis by auto
  qed
  have "\<exists>h. map_of (snd ?sm) (last (columns ?rep)) = Some h \<and> header ?rep = h"
    if "columns ?rep \<noteq> []"
  proof -
    from that have "last (columns ?rep) \<in> set (columns ?rep)" by simp
    from p[OF this] obtain h where "map_of (snd ?sm) (last (columns ?rep)) = Some h" ..
    then show ?thesis using that by (simp add: header_eq)
  qed
  with k s p show ?thesis unfolding Let_def by blast
qed


section \<open>The shift indexer\<close>

lemma index_step_skip: "\<not> indexable r \<Longrightarrow> index_step idx r = idx"
  by (auto simp: index_step_def indexable_def Let_def)

lemma index_step_map_of:
  assumes "indexable r"
  shows "map_of (index_step idx r) =
     (map_of idx)(gkey_of r \<mapsto>
        (case map_of idx (gkey_of r) of
           None \<Rightarrow> mk_group (gkey_of r) (hhmm (field r ''donetime''))
         | Some g \<Rightarrow> if replaces (hhmm (field r ''donetime'')) (last_time g)
                     then g\<lparr>last_time := hhmm (field r ''donetime'')\<rparr> else g))"
  using assms
  by (auto simp: index_step_def indexable_def Let_def gkey_of_def mk_group_def
      AList.update_conv' fun_eq_iff split: option.splits)

lemma index_step_distinct:
  "distinct (map fst idx) \<Longrightarrow> distinct (map fst (index_step idx r))"
  by (auto simp: index_step_def Let_def AList.distinct_update split: option.splits)

lemma index_distinct: "distinct (map fst (foldl index_step [] rs))"
  by (induction rs rule: rev_induct) (simp_all add: index_step_distinct)

lemma max_time_snoc:
  "max_time (ts @ [t]) = Some (case max_time ts of None \<Rightarrow> t | Some l \<Rightarrow> max l t)"
  by (cases "ts = []") (simp_all add: max_time_def max.commute)

lemma parsed_times_snoc:
  "parsed_times k (rs @ [r]) = parsed_times k rs @
     (if gkey_of r = k then (case hhmm (field r ''donetime'') of None \<Rightarrow> [] | Some t \<Rightarrow> [t]) else [])"
  by (simp add: parsed_times_def map_filter_def split: option.splits)

lemma parsed_times_empty:
  assumes "\<forall>r \<in> set rs. gkey_of r = k \<longrightarrow> \<not> indexable r"
    and "fst k \<noteq> []" "fst (snd k) \<noteq> []" "snd (snd k) \<noteq> []"
  shows "parsed_times k rs = []"
proof -
  have "hhmm (field r ''donetime'') = None" if "r \<in> set rs" "gkey_of r = k" for r
  proof -
    from that assms have "\<not> indexable r" by blast
    with that(2) assms(2-4) have "field r ''donetime'' = []"
      by (auto simp: indexable_def gkey_of_def)
    then show ?thesis by (simp add: hhmm_empty)
  qed
  then show ?thesis
    by (auto simp: parsed_times_def map_filter_def filter_empty_conv)
qed

lemma replaces_max:
  "(if replaces t (max_time ts) then t else max_time ts) =
     max_time (ts @ (case t of None \<Rightarrow> [] | Some t' \<Rightarrow> [t']))"
proof (cases t)
  case None
  then show ?thesis by simp
next
  case (Some t')
  show ?thesis
  proof (cases "ts = []")
    case True
    then show ?thesis using Some by (simp add: max_time_def)
  next
    case False
    then have "Max (set (ts @ [t'])) = max t' (Max (set ts))" by simp
    moreover have "max t' (Max (set ts)) = (if t' > Max (set ts) then t' else Max (set ts))"
      by (auto simp: max_def)
    ultimately show ?thesis using Some False
      by (simp add: max_time_def del: Max_less_iff set_append)
  qed
qed

lemma index_map_of:
  "map_of (foldl index_step [] rs) k =
     (if \<exists>r \<in> set rs. indexable r \<and> gkey_of r = k
      then Some (mk_group k (max_time (parsed_times k rs))) else None)"
proof (induction rs arbitrary: k rule: rev_induct)
  case Nil
  then show ?case by simp
next
  case (snoc r rs)
  let ?idx = "foldl index_step [] rs"
  let ?t = "hhmm (field r ''donetime'')"
  show ?case
  proof (cases "indexable r")
    case False
    have "parsed_times k (rs @ [r]) = parsed_times k rs"
      if "\<exists>r' \<in> set rs. indexable r' \<and> gkey_of r' = k"
    proof (cases "gkey_of r = k")
      case True
      from that obtain r' where "indexable r'" "gkey_of r' = k" by blast
      with True False have "field r ''donetime'' = []"
        by (auto simp: indexable_def gkey_of_def)
      then show ?thesis by (simp add: parsed_times_snoc hhmm_empty)
    next
      case False
      then show ?thesis by (simp add: parsed_times_snoc)
    qed
    then show ?thesis using False snoc by (auto simp: index_step_skip)
  next
    case True
    show ?thesis
    proof (cases "gkey_of r = k")
      case False
      then show ?thesis using True snoc
        by (auto simp: index_step_map_of parsed_times_snoc)
    next
      case k: True
      have nonempty: "fst k \<noteq> []" "fst (snd k) \<noteq> []" "snd (snd k) \<noteq> []"
        using True k by (auto simp: indexable_def gkey_of_def)
      show ?thesis
      proof (cases "\<exists>r' \<in> set rs. indexable r' \<and> gkey_of r' = k")
        case False
        then have "parsed_times k rs = []"
          using nonempty by (intro parsed_times_empty) auto
        moreover from False have "map_of ?idx k = None" using snoc by simp
        ultimately show ?thesis using True k
          by (auto simp: index_step_map_of parsed_times_snoc max_time_def split: option.splits)
      next
        case ex: True
        then have m: "map_of ?idx k = Some (mk_group k (max_time (parsed_times k rs)))"
          using snoc by simp
        have "map_of (index_step ?idx r) k =
            Some (mk_group k (if replaces ?t (max_time (parsed_times k rs)) then ?t
                              else max_time (parsed_times k rs)))"
          using True k m by (simp add: index_step_map_of mk_group_def)
        then show ?thesis using True k
          by (simp add: replaces_max parsed_times_snoc)
      qed
    qed
  qed
qed

lemma set_sorted_reverse: "set (sorted_reverse f xs) = set xs"
  by (simp add: sorted_reverse_def)

lemma mset_sorted_reverse: "mset (sorted_reverse f xs) = mset xs"
  by (simp add: sorted_reverse_def)

lemma sorted_sorted_reverse: "sorted_wrt (\<lambda>a b. f b \<le> f a) (sorted_reverse f xs)"
proof -
  have "sorted_wrt (\<lambda>a b. f a \<le> f b) (sort_key f (rev xs))"
    using sorted_sort_key[of f "rev xs"] by (simp add: sorted_map)
  then show ?thesis
    by (simp add: sorted_reverse_def sorted_wrt_rev)
qed

lemma foldl_index_filter:
  "foldl index_step idx rs = foldl index_step idx (filter indexable rs)"
  by (induction rs arbitrary: idx) (simp_all add: index_step_skip)

lemma index_entry:
  assumes "(k, g) \<in> set (foldl index_step [] rs)"
  shows "(\<exists>r \<in> set rs. indexable r \<and> gkey_of r = k) \<and>
         g = mk_group k (max_time (parsed_times k rs))"
proof -
  from assms have "map_of (foldl index_step [] rs) k = Some g"
    by (simp add: index_distinct)
  then show ?thesis
    by (auto simp: index_map_of split: if_splits)
qed

lemma group_key_mk_group: "group_key (mk_group k lt) = k"
  by (simp add: group_key_def mk_group_def)

lemma index_group_keys:
  "map group_key (map snd (foldl index_step [] rs)) = map fst (foldl index_step [] rs)"
proof -
  have "group_key (snd p) = fst p" if "p \<in> set (foldl index_step [] rs)" for p
    using index_entry[of "fst p" "snd p" rs] that by (simp add: group_key_mk_group)
  then show ?thesis by simp
qed

text \<open>
  C3.  Every group the indexer returns is the group of a record whose four trimmed
  fields are non-empty, and its \<open>last_time\<close> is the maximum of the times parsed from
  the records that share its key, absent if none parses.  Every such record has its
  group, no two groups share a key, and the records with an empty field change
  nothing: the result is that of the batch without them.
\<close>

theorem build_shift_index_groups:
  "(\<forall>g \<in> set (build_shift_index rows).
      (\<exists>r \<in> set rows. indexable r \<and> gkey_of r = group_key g) \<and>
      last_time g = max_time (parsed_times (group_key g) rows)) \<and>
   (\<forall>r \<in> set rows. indexable r \<longrightarrow>
      (\<exists>g \<in> set (build_shift_index rows). group_key g = gkey_of r)) \<and>
   distinct (map group_key (build_shift_index rows)) \<and>
   build_shift_index rows = build_shift_index (filter indexable rows)"
proof -
  let ?idx = "foldl index_step [] rows"
  have out: "set (build_shift_index rows) = snd ` set ?idx"
    by (simp add: build_shift_index_def set_sorted_reverse)
  have a: "(\<exists>r \<in> set rows. indexable r \<and> gkey_of r = group_key g) \<and>
      last_time g = max_time (parsed_times (group_key g) rows)"
    if "g \<in> set (build_shift_index rows)" for g
  proof -
    from that out obtain k where "(k, g) \<in> set ?idx" by auto
    from index_entry[OF this] show ?thesis
      by (auto simp: group_key_mk_group) (simp add: mk_group_def)
  qed
  have b: "\<exists>g \<in> set (build_shift_index rows). group_key g = gkey_of r"
    if "r \<in> set rows" "indexable r" for r
  proof -
    from that have "map_of ?idx (gkey_of r) =
        Some (mk_group (gkey_of r) (max_time (parsed_times (gkey_of r) rows)))"
      by (auto simp: index_map_of)
    then have "(gkey_of r, mk_group (gkey_of r) (max_time (parsed_times (gkey_of r) rows))) \<in> set ?idx"
      by (rule map_of_SomeD)
    then have "mk_group (gkey_of r) (max_time (parsed_times (gkey_of r) rows)) \<in> set (build_shift_index rows)"
      unfolding out by force
    then show ?thesis by (rule bexI[rotated]) (simp add: group_key_mk_group)
  qed
  have "mset (map group_key (build_shift_index rows)) = image_mset group_key (mset (map snd ?idx))"
    unfolding build_shift_index_def Let_def by (simp only: mset_map mset_sorted_reverse)
  also have "\<dots> = mset (map group_key (map snd ?idx))" by (simp only: mset_map)
  finally have "mset (map group_key (build_shift_index rows)) = mset (map fst ?idx)"
    by (simp only: index_group_keys)
  then have c: "distinct (map group_key (build_shift_index rows))"
    using index_distinct[of rows] by (metis mset_eq_imp_distinct_iff)
  have d: "build_shift_index rows = build_shift_index (filter indexable rows)"
    unfolding build_shift_index_def by (subst foldl_index_filter) simp
  from a b c d show ?thesis by blast
qed

lemma strptime_Ymd_min:
  assumes "strptime_Ymd s = Inr d"
  shows "(1, 1, 1) \<le> d"
proof -
  from assms obtain y m d' where "date_new y m d' = Inr d"
    by (auto simp: strptime_Ymd_def split: list.splits prod.splits if_splits)
  then have "d = (y, m, d')" "1 \<le> y" "1 \<le> m" "1 \<le> d'"
    by (auto simp: date_new_def split: if_splits)
  then show ?thesis by auto
qed

text \<open>
  C4.  The result of the indexer is sorted descending by the pair of the parsed
  \<open>shiftDate\<close>, which is \<open>0001-01-01\<close> when it does not parse, and the
  \<open>last_time\<close>, which is \<open>00:00\<close> when absent; no date and no time is earlier
  than these.  A group with a later date comes before one with an earlier date, and of
  two groups with the same date the one with the later time comes first.
\<close>

theorem build_shift_index_sorted:
  "sorted_wrt (\<lambda>a b. group_sort_key b \<le> group_sort_key a) (build_shift_index rows) \<and>
   (\<forall>g. group_sort_key g =
      ((case strptime_Ymd (shiftDate g) of Inr d \<Rightarrow> d | Inl e \<Rightarrow> (1, 1, 1)),
       (case last_time g of Some t \<Rightarrow> t | None \<Rightarrow> (0, 0)))) \<and>
   (\<forall>s d. strptime_Ymd s = Inr d \<longrightarrow> (1, 1, 1) \<le> d) \<and>
   (\<forall>t :: time. (0, 0) \<le> t) \<and>
   (\<forall>i j. i < length (build_shift_index rows) \<and> j < length (build_shift_index rows) \<and>
      fst (group_sort_key (build_shift_index rows ! j)) < fst (group_sort_key (build_shift_index rows ! i))
      \<longrightarrow> i < j) \<and>
   (\<forall>i j. i < length (build_shift_index rows) \<and> j < length (build_shift_index rows) \<and>
      fst (group_sort_key (build_shift_index rows ! j)) = fst (group_sort_key (build_shift_index rows ! i)) \<and>
      snd (group_sort_key (build_shift_index rows ! j)) < snd (group_sort_key (build_shift_index rows ! i))
      \<longrightarrow> i < j)"
proof -
  let ?out = "build_shift_index rows"
  have s: "sorted_wrt (\<lambda>a b. group_sort_key b \<le> group_sort_key a) ?out"
    by (simp add: build_shift_index_def sorted_sorted_reverse)
  have k: "group_sort_key g =
      ((case strptime_Ymd (shiftDate g) of Inr d \<Rightarrow> d | Inl e \<Rightarrow> (1, 1, 1)),
       (case last_time g of Some t \<Rightarrow> t | None \<Rightarrow> (0, 0)))" for g
    unfolding group_sort_key_def date_min_def time_min_def Let_def by (rule refl)
  have lt: "i < j" if "i < length ?out" "j < length ?out"
    "group_sort_key (?out ! j) < group_sort_key (?out ! i)" for i j
  proof (rule ccontr)
    assume "\<not> i < j"
    then consider "i = j" | "j < i" by arith
    then show False
    proof cases
      case 1
      with that show ?thesis by simp
    next
      case 2
      with s that have "group_sort_key (?out ! i) \<le> group_sort_key (?out ! j)"
        by (simp add: sorted_wrt_iff_nth_less)
      with that show ?thesis by simp
    qed
  qed
  have d: "i < j" if "i < length ?out" "j < length ?out"
    "fst (group_sort_key (?out ! j)) < fst (group_sort_key (?out ! i))" for i j
  proof -
    from that(3) have "group_sort_key (?out ! j) < group_sort_key (?out ! i)"
      by (simp add: less_prod_def)
    with that(1,2) show ?thesis by (rule lt)
  qed
  have t: "i < j" if "i < length ?out" "j < length ?out"
    "fst (group_sort_key (?out ! j)) = fst (group_sort_key (?out ! i))"
    "snd (group_sort_key (?out ! j)) < snd (group_sort_key (?out ! i))" for i j
  proof -
    from that(3,4) have "group_sort_key (?out ! j) < group_sort_key (?out ! i)"
      by (simp add: less_prod_def)
    with that(1,2) show ?thesis by (rule lt)
  qed
  show ?thesis
  proof (intro conjI allI impI)
    show "sorted_wrt (\<lambda>a b. group_sort_key b \<le> group_sort_key a) ?out" by (rule s)
  next
    fix s d assume "strptime_Ymd s = Inr d"
    then show "(1, 1, 1) \<le> d" by (rule strptime_Ymd_min)
  next
    fix t :: time
    show "(0, 0) \<le> t" by (cases t) simp
  next
    fix g
    show "group_sort_key g =
      ((case strptime_Ymd (shiftDate g) of Inr d \<Rightarrow> d | Inl e \<Rightarrow> (1, 1, 1)),
       (case last_time g of Some t \<Rightarrow> t | None \<Rightarrow> (0, 0)))" by (rule k)
  next
    fix i j
    assume "i < length ?out \<and> j < length ?out \<and>
      fst (group_sort_key (?out ! j)) < fst (group_sort_key (?out ! i))"
    then show "i < j" using d[of i j] by simp
  next
    fix i j
    assume "i < length ?out \<and> j < length ?out \<and>
      fst (group_sort_key (?out ! j)) = fst (group_sort_key (?out ! i)) \<and>
      snd (group_sort_key (?out ! j)) < snd (group_sort_key (?out ! i))"
    then show "i < j" using t[of i j] by simp
  qed
qed

section \<open>The examples\<close>

lemma get_ex_row:
  "get (ex_row sd st dt item res opr) ''shiftDate'' = PStr (ascii sd)"
  "get (ex_row sd st dt item res opr) ''shift'' = PStr (ascii ''A'')"
  "get (ex_row sd st dt item res opr) ''station'' = PStr (ascii st)"
  "get (ex_row sd st dt item res opr) ''donetime'' = PStr (ascii dt)"
  "get (ex_row sd st dt item res opr) ''itemname'' = PStr (ascii item)"
  "get (ex_row sd st dt item res opr) ''itemresult'' = PStr (ascii res)"
  "get (ex_row sd st dt item res opr) ''operator'' = PStr (ascii opr)"
  "get (ex_row sd st dt item res opr) ''productproduced'' = PNone"
  "get (ex_row sd st dt item res opr) ''productionOrder'' = PNone"
  by (simp_all add: get_def ex_row_def ascii_def)

lemma get_ex_row_no_station:
  "get ((ex_row sd st dt item res opr)(ascii ''station'' := None)) ''shiftDate'' = PStr (ascii sd)"
  "get ((ex_row sd st dt item res opr)(ascii ''station'' := None)) ''shift'' = PStr (ascii ''A'')"
  "get ((ex_row sd st dt item res opr)(ascii ''station'' := None)) ''station'' = PNone"
  "get ((ex_row sd st dt item res opr)(ascii ''station'' := None)) ''donetime'' = PStr (ascii dt)"
  by (simp_all add: get_def ex_row_def ascii_def)

lemma field_PStr: "get r k = PStr s \<Longrightarrow> field r k = strip s"
  by (simp add: field_def py_or_def strip_def)

lemma field_PNone: "get r k = PNone \<Longrightarrow> field r k = []"
  by (simp add: field_def py_or_def strip_def)

lemmas field_ex_row =
  get_ex_row(1-7)[THEN field_PStr] get_ex_row(8-9)[THEN field_PNone]
  get_ex_row_no_station(1,2,4)[THEN field_PStr] get_ex_row_no_station(3)[THEN field_PNone]

lemmas date_eval_defs =
  ascii_def strptime_Ymd_def match_Ymd_def and_then_def re_Y_def re_m_def re_d_def alt_def
  seq_def ch_def rng_def is_decimal_def decimal_def Nd_zeros_def int_str_def strip_def
  is_space_def date_new_def days_in_month_def is_leap_def

lemma Ymd_20240101: "strptime_Ymd (ascii ''2024-01-01'') = Inr (2024, 1, 1)"
  by (simp add: date_eval_defs)

lemma Ymd_20240102: "strptime_Ymd (ascii ''2024-01-02'') = Inr (2024, 1, 2)"
  by (simp add: date_eval_defs)

lemma Ymd_20230229: "strptime_Ymd (ascii ''2023-02-29'') = Inl ValueError"
  by (simp add: date_eval_defs)

lemma strip_ascii_examples:
  "strip (ascii ''2024-01-01'') = ascii ''2024-01-01''"
  "strip (ascii ''2024-01-02'') = ascii ''2024-01-02''"
  "strip (ascii ''A'') = ascii ''A''"
  "strip (ascii ''Line1'') = ascii ''Line1''"
  "strip (ascii ''S1'') = ascii ''S1''"
  "strip (ascii ''S2'') = ascii ''S2''"
  "strip (ascii ''08:00'') = ascii ''08:00''"
  "strip (ascii ''06:00'') = ascii ''06:00''"
  "strip (ascii ''09:30'') = ascii ''09:30''"
  "strip (ascii ''23:59'') = ascii ''23:59''"
  by (simp_all add: ascii_def strip_def is_space_def)

lemma ex_index_fold:
  "foldl index_step [] ex_index_rows =
     [((ascii ''2024-01-01'', ascii ''A'', ascii ''Line1''),
       \<lparr>shiftDate = ascii ''2024-01-01'', shift = ascii ''A'', station = ascii ''Line1'',
        last_time = Some (9, 30)\<rparr>),
      ((ascii ''2024-01-02'', ascii ''A'', ascii ''Line1''),
       \<lparr>shiftDate = ascii ''2024-01-02'', shift = ascii ''A'', station = ascii ''Line1'',
        last_time = Some (6, 0)\<rparr>)]"
proof -
  have ne: "ascii ''2024-01-01'' \<noteq> ascii ''2024-01-02''" "ascii ''2024-01-01'' \<noteq> []"
    "ascii ''2024-01-02'' \<noteq> []" "ascii ''A'' \<noteq> []" "ascii ''Line1'' \<noteq> []"
    "ascii ''08:00'' \<noteq> []" "ascii ''06:00'' \<noteq> []" "ascii ''09:30'' \<noteq> []"
    by (simp_all add: ascii_def)
  show ?thesis
    using ne
    by (simp add: ex_index_rows_def index_step_def Let_def field_ex_row strip_ascii_examples
        hhmm_0800 hhmm_0600 hhmm_0930)
qed

lemma ex_index:
  "build_shift_index ex_index_rows =
     [\<lparr>shiftDate = ascii ''2024-01-02'', shift = ascii ''A'', station = ascii ''Line1'',
       last_time = Some (6, 0)\<rparr>,
      \<lparr>shiftDate = ascii ''2024-01-01'', shift = ascii ''A'', station = ascii ''Line1'',
       last_time = Some (9, 30)\<rparr>]"
  unfolding build_shift_index_def Let_def ex_index_fold
  by (simp add: sorted_reverse_def group_sort_key_def Ymd_20240101 Ymd_20240102)

text \<open>The example batch: \<open>09:30\<close> is the last time of the first day's group.\<close>

theorem build_shift_index_groups_witness:
  "build_shift_index ex_index_rows =
     [\<lparr>shiftDate = ascii ''2024-01-02'', shift = ascii ''A'', station = ascii ''Line1'',
       last_time = Some (6, 0)\<rparr>,
      \<lparr>shiftDate = ascii ''2024-01-01'', shift = ascii ''A'', station = ascii ''Line1'',
       last_time = Some (9, 30)\<rparr>] \<and>
   max_time (parsed_times (ascii ''2024-01-01'', ascii ''A'', ascii ''Line1'') ex_index_rows) =
     Some (9, 30) \<and>
   build_shift_index (filter indexable ex_index_rows) = build_shift_index ex_index_rows"
proof -
  note t = build_shift_index_groups[of ex_index_rows]
  let ?g = "\<lparr>shiftDate = ascii ''2024-01-01'', shift = ascii ''A'', station = ascii ''Line1'',
       last_time = Some (9, 30)\<rparr>"
  have "?g \<in> set (build_shift_index ex_index_rows)"
    by (simp add: ex_index)
  with t have "last_time ?g = max_time (parsed_times (group_key ?g) ex_index_rows)"
    by blast
  then have m: "max_time (parsed_times (ascii ''2024-01-01'', ascii ''A'', ascii ''Line1'')
      ex_index_rows) = Some (9, 30)"
    by (simp add: group_key_def)
  from t have f: "build_shift_index (filter indexable ex_index_rows) = build_shift_index ex_index_rows"
    by simp
  from ex_index m f show ?thesis by (intro conjI)
qed

theorem build_shift_index_sorted_witness:
  "(1::nat) < length (build_shift_index ex_index_rows) \<and>
   fst (group_sort_key (build_shift_index ex_index_rows ! 1)) = (2024, 1, 1) \<and>
   fst (group_sort_key (build_shift_index ex_index_rows ! 0)) = (2024, 1, 2) \<and>
   group_sort_key (build_shift_index ex_index_rows ! 1) \<le>
     group_sort_key (build_shift_index ex_index_rows ! 0)"
  using build_shift_index_sorted[of ex_index_rows] ex_index
  by (simp add: Ymd_20240101 Ymd_20240102)

lemma ex_filtered:
  "filtered ex_rows (ascii ''2024-01-01'') (ascii ''A'') (ascii ''S1'') =
     [ex_row ''2024-01-01'' ''S1'' ''07:10'' ''t'' ''-'' ''Dave'',
      ex_row ''2024-01-01'' ''S1'' ''06:05'' ''t'' ''1,5'' ''Alice'',
      ex_row ''2024-01-01'' ''S1'' ''06:05'' ''t'' ''2'' ''Bob'',
      ex_row ''2024-01-01'' ''S1'' ''23:00'' ''x'' ''9'' ''Carol'',
      ex_row ''2024-01-01'' ''S1'' ''07:10'' ''t'' ''4'' ''Eve'']"
  by (simp add: filtered_def ex_rows_def field_ex_row ascii_def strip_def is_space_def)

lemma hhmm_0605: "hhmm (ascii ''06:05'') = Some (6, 5)"
  using hhmm_wellformed[of 0 6 0 5] by (simp add: ascii_def)

lemma hhmm_0710: "hhmm (ascii ''07:10'') = Some (7, 10)"
  using hhmm_wellformed[of 0 7 1 0] by (simp add: ascii_def)

lemma start_A: "start_minutes SHIFT_START (ascii ''A'') = 360"
  using hhmm_0600
  by (simp add: start_minutes_eq minutes_or_zero_def minutes_def SHIFT_START_def ascii_def)

lemma ex_fold:
  "foldl (report_step [ascii ''t'']) ([], [])
     (filtered ex_rows (ascii ''2024-01-01'') (ascii ''A'') (ascii ''S1'')) =
   ([(ascii ''07:10'', [(ascii ''t'', ascii ''4'')]), (ascii ''06:05'', [(ascii ''t'', ascii ''2'')])],
    [(ascii ''07:10'', \<lparr>operator = ascii ''Dave'', product_hdr = [], productionOrder = []\<rparr>),
     (ascii ''06:05'', \<lparr>operator = ascii ''Alice'', product_hdr = [], productionOrder = []\<rparr>)])"
  by (subst ex_filtered)
    (simp add: report_step_def skipped_def header_of_def field_ex_row get_ex_row
      normalize_value_def replace_comma_def Let_def ascii_def strip_def is_space_def)

lemma ex_report:
  "build_report_with [ascii ''t''] SHIFT_START ex_rows
     (ascii ''2024-01-01'') (ascii ''A'') (ascii ''S1'') =
     \<lparr>shiftDate = ascii ''2024-01-01'', shift = ascii ''A'', station = ascii ''S1'',
      columns = [ascii ''06:05'', ascii ''07:10''],
      matrix = [\<lparr>label = ascii ''t'', row_values = [ascii ''2'', ascii ''4'']\<rparr>],
      header = \<lparr>operator = ascii ''Dave'', product_hdr = [], productionOrder = []\<rparr>\<rparr>"
proof -
  have k1: "key 360 (ascii ''06:05'') = 5" and k2: "key 360 (ascii ''07:10'') = 70"
    by (simp_all add: key_eq minutes_or_zero_def minutes_def hhmm_0605 hhmm_0710)
  have ne: "ascii ''07:10'' \<noteq> ascii ''06:05''" by (simp add: ascii_def)
  have c: "sort_donetime_list_with SHIFT_START [ascii ''07:10'', ascii ''06:05''] (ascii ''A'')
      = [ascii ''06:05'', ascii ''07:10'']"
    by (simp add: sort_donetime_list_with_def start_A k1 k2)
  show ?thesis
    unfolding build_report_with_def Let_def ex_fold
    using ne by (simp add: c cell_def)
qed

lemma ex_no_S9:
  "\<forall>r \<in> set ex_rows. (field r ''shiftDate'', field r ''shift'', field r ''station'') \<noteq>
     (ascii ''2024-01-01'', ascii ''A'', ascii ''S9'')"
  by (simp add: ex_rows_def field_ex_row ascii_def strip_def is_space_def)

theorem build_report_matrix_witness:
  "(0::nat) < length [ascii ''t''] \<and>
   (1::nat) < length (columns (build_report_with [ascii ''t''] SHIFT_START ex_rows
      (ascii ''2024-01-01'') (ascii ''A'') (ascii ''S1''))) \<and>
   (case recorded (ascii ''07:10'') (ascii ''t'')
           (surviving [ascii ''t'']
              (filtered ex_rows (ascii ''2024-01-01'') (ascii ''A'') (ascii ''S1''))) of
      [] \<Rightarrow> [] | v # vs \<Rightarrow> last (v # vs)) = ascii ''4''"
proof -
  let ?rep = "build_report_with [ascii ''t''] SHIFT_START ex_rows
      (ascii ''2024-01-01'') (ascii ''A'') (ascii ''S1'')"
  let ?kept = "surviving [ascii ''t'']
      (filtered ex_rows (ascii ''2024-01-01'') (ascii ''A'') (ascii ''S1''))"
  note t = build_report_matrix[of "[ascii ''t'']" SHIFT_START ex_rows
      "ascii ''2024-01-01''" "ascii ''A''" "ascii ''S1''", unfolded Let_def]
  have l: "(0::nat) < length [ascii ''t'']" "(1::nat) < length (columns ?rep)"
    by (simp_all add: ex_report)
  with t have "row_values (matrix ?rep ! 0) ! 1 =
      (case recorded (columns ?rep ! 1) ([ascii ''t''] ! 0) ?kept of
         [] \<Rightarrow> [] | v # vs \<Rightarrow> last (v # vs))"
    by blast
  then have "(case recorded (ascii ''07:10'') (ascii ''t'') ?kept of
         [] \<Rightarrow> [] | v # vs \<Rightarrow> last (v # vs)) = ascii ''4''"
    by (simp add: ex_report)
  with l show ?thesis by (intro conjI)
qed

theorem build_report_no_data_witness:
  "filtered ex_rows (ascii ''2024-01-01'') (ascii ''A'') (ascii ''S9'') = [] \<and>
   columns (build_report_with [ascii ''t''] SHIFT_START ex_rows
      (ascii ''2024-01-01'') (ascii ''A'') (ascii ''S9'')) = [] \<and>
   map row_values (matrix (build_report_with [ascii ''t''] SHIFT_START ex_rows
      (ascii ''2024-01-01'') (ascii ''A'') (ascii ''S9''))) = [[]]"
proof -
  let ?rep = "build_report_with [ascii ''t''] SHIFT_START ex_rows
      (ascii ''2024-01-01'') (ascii ''A'') (ascii ''S9'')"
  note t = build_report_no_data[of "[ascii ''t'']" ex_rows "ascii ''2024-01-01''" "ascii ''A''"
      "ascii ''S9''" SHIFT_START]
  from t ex_no_S9
  have f: "filtered ex_rows (ascii ''2024-01-01'') (ascii ''A'') (ascii ''S9'') = []"
    by blast
  with t have c: "columns ?rep = []"
    and l: "map label (matrix ?rep) = [ascii ''t'']"
    and v: "\<forall>row \<in> set (matrix ?rep). row_values row = []"
    by blast+
  from l obtain m where "matrix ?rep = [m]"
    by (cases "matrix ?rep") auto
  with v have "map row_values (matrix ?rep) = [[]]" by simp
  with f c show ?thesis by (intro conjI)
qed

theorem build_report_meta_present_witness:
  "columns (build_report_with [ascii ''t''] SHIFT_START ex_rows
      (ascii ''2024-01-01'') (ascii ''A'') (ascii ''S1'')) \<noteq> [] \<and>
   map_of (snd (foldl (report_step [ascii ''t'']) ([], [])
        (filtered ex_rows (ascii ''2024-01-01'') (ascii ''A'') (ascii ''S1''))))
     (last (columns (build_report_with [ascii ''t''] SHIFT_START ex_rows
        (ascii ''2024-01-01'') (ascii ''A'') (ascii ''S1'')))) =
   Some (header (build_report_with [ascii ''t''] SHIFT_START ex_rows
      (ascii ''2024-01-01'') (ascii ''A'') (ascii ''S1'')))"
proof -
  let ?rep = "build_report_with [ascii ''t''] SHIFT_START ex_rows
      (ascii ''2024-01-01'') (ascii ''A'') (ascii ''S1'')"
  note t = build_report_meta_present[of "[ascii ''t'']" ex_rows
      "ascii ''2024-01-01''" "ascii ''A''" "ascii ''S1''" SHIFT_START, unfolded Let_def]
  have ne: "columns ?rep \<noteq> []" by (simp add: ex_report)
  with t show ?thesis by auto
qed


end
